theory Spec2Isabelle
  imports Main "HOL-Library.Word"
begin

section \<open>The pre-emit assembly analysis pass (AsmAnalysis.cpp)\<close>

subsection \<open>Data consumed by the pass\<close>

text \<open>
  A \<open>DebugLoc\<close> is either empty or a source position (line, column); the C++
  conversion of a \<open>DebugLoc\<close> to \<open>bool\<close> is the test for being non-empty.
\<close>

type_synonym DebugLoc = "(nat \<times> nat) option"

type_synonym unsigned = "32 word"

record MachineInstr =
  isDebugInstr :: bool
  isPseudoProbe :: bool
  getDebugLoc :: DebugLoc

text \<open>
  A basic block: its instructions in order (\<open>size()\<close> is their number), the range
  returned by \<open>terminators()\<close>, and the predecessor and successor lists. A pointer to
  a block of a function is the index of the block in the function's block list.
\<close>

record MachineBasicBlock =
  insts :: "MachineInstr list"
  terminators :: "MachineInstr list"
  predecessors :: "nat list"
  successors :: "nat list"

text \<open>
  A loop of the loop forest: the header block, the sub-loops in the order the loop
  enumerates them, the latch blocks, the value of \<open>getNumBlocks()\<close> and the value of
  \<open>getStartLoc()\<close>.
\<close>

datatype MachineLoop =
  MachineLoop (getHeader: MachineBasicBlock) (subLoops: "MachineLoop list")
    (latches: "MachineBasicBlock list") (getNumBlocks: unsigned) (getStartLoc: DebugLoc)

text \<open>
  Modelled from the spec: \<open>getLoopLatch\<close> is declared outside AsmAnalysis.cpp. The
  spec says that when the loop has one or more latch blocks the first latch is the one
  whose terminators are scanned; with no latch there is none.
\<close>

fun getLoopLatch :: "MachineLoop \<Rightarrow> MachineBasicBlock option" where
  "getLoopLatch (MachineLoop Header SubLoops [] NumBlocks StartLoc) = None"
| "getLoopLatch (MachineLoop Header SubLoops (Latch # Latches) NumBlocks StartLoc) = Some Latch"

subsection \<open>Output of the pass\<close>

text \<open>
  The remarks handed to the remark emitter. \<open>LoopInfo2\<close> carries the anchor's debug
  location, the header block, and the four named values NumBlocks, NumInsts, Bubbles and
  NumSubLoops. \<open>AsmA\<close> carries the two operands of the division whose quotient is the
  AverageSize value (Sizes and NumFGs).
\<close>

datatype Remark =
  LoopInfo2 (rLoc: DebugLoc) (rBlock: MachineBasicBlock) (rNumBlocks: unsigned)
    (rNumInsts: unsigned) (rBubbles: unsigned) (rNumSubLoops: unsigned)
| AsmA unsigned unsigned

text \<open>
  What the \<open>LLVM_DEBUG\<close> statements print when debug output is enabled, one event
  per statement executed. The remarks never depend on it.
\<close>

datatype DbgEvent =
  DbgFunction string
| DbgLoop DebugLoc unsigned
| DbgInstr MachineInstr
| DbgStartFG
| DbgBlock nat
| DbgFGSize unsigned
| DbgAverage unsigned unsigned

text \<open>The two output channels, both in the order of writing.\<close>

record PassState =
  dbgs :: "DbgEvent list"
  ORE :: "Remark list"

definition debug :: "DbgEvent \<Rightarrow> PassState \<Rightarrow> PassState" where
  "debug e s = s\<lparr>dbgs := dbgs s @ [e]\<rparr>"

definition emit :: "Remark \<Rightarrow> PassState \<Rightarrow> PassState" where
  "emit R s = s\<lparr>ORE := ORE s @ [R]\<rparr>"

definition initState :: PassState where
  "initState = \<lparr>dbgs = [], ORE = []\<rparr>"

subsection \<open>reportLoop\<close>

definition MW :: unsigned where
  "MW = 10"

text \<open>The value streamed as Bubbles (line 101).\<close>

definition bubbles :: "unsigned \<Rightarrow> unsigned" where
  "bubbles numInsts = (if numInsts mod MW \<noteq> 0 then MW - numInsts mod MW else 0)"

text \<open>
  The loop over the header's instructions (lines 72-80); the triple is
  (AnchorMI, numInsts, output).
\<close>

fun scanHeader ::
  "MachineInstr list \<Rightarrow> MachineInstr option \<times> unsigned \<times> PassState \<Rightarrow>
   MachineInstr option \<times> unsigned \<times> PassState" where
  "scanHeader [] acc = acc"
| "scanHeader (MI # MIs) (AnchorMI, numInsts, s) =
     (if isDebugInstr MI \<or> isPseudoProbe MI then scanHeader MIs (AnchorMI, numInsts, s)
      else scanHeader MIs
        (case AnchorMI of None \<Rightarrow> Some MI | Some A \<Rightarrow> Some A, numInsts + 1,
         debug (DbgInstr MI) s))"

text \<open>The loop over the latch's terminators (lines 83-88), with its \<open>break\<close>.\<close>

fun scanTerminators :: "MachineInstr list \<Rightarrow> MachineInstr option \<Rightarrow> MachineInstr option" where
  "scanTerminators [] AnchorMI = AnchorMI"
| "scanTerminators (MI # MIs) AnchorMI =
     (if getDebugLoc MI \<noteq> None then Some MI else scanTerminators MIs AnchorMI)"

text \<open>
  \<open>reportLoop\<close> (lines 59-105), and its loop over the sub-loops (lines 67-70), whose
  state is (numSubLoops, output).
\<close>

fun reportLoop :: "MachineLoop \<Rightarrow> unsigned \<Rightarrow> PassState \<Rightarrow> PassState"
  and reportSubLoops ::
    "MachineLoop list \<Rightarrow> unsigned \<Rightarrow> unsigned \<times> PassState \<Rightarrow> unsigned \<times> PassState" where
  "reportLoop (MachineLoop Header SubLoops Latches NumBlocks StartLoc) NestLevel s =
     (case reportSubLoops SubLoops NestLevel (0, debug (DbgLoop StartLoc NestLevel) s) of
        (numSubLoops, s1) \<Rightarrow>
       (case scanHeader (insts Header) (None, 0, s1) of
          (AnchorMI0, numInsts, s2) \<Rightarrow>
         (case (case getLoopLatch (MachineLoop Header SubLoops Latches NumBlocks StartLoc) of
                  None \<Rightarrow> AnchorMI0
                | Some Latch \<Rightarrow> scanTerminators (terminators Latch) AnchorMI0) of
            None \<Rightarrow> s2
          | Some AnchorMI \<Rightarrow>
              emit (LoopInfo2 (getDebugLoc AnchorMI) Header NumBlocks numInsts
                      (bubbles numInsts) numSubLoops) s2)))"
| "reportSubLoops [] NestLevel acc = acc"
| "reportSubLoops (SubL # SubLs) NestLevel (numSubLoops, s) =
     reportSubLoops SubLs NestLevel (numSubLoops + 1, reportLoop SubL (NestLevel + 1) s)"

subsection \<open>runOnMachineFunction\<close>

record MachineFunction =
  getName :: string
  blocks :: "MachineBasicBlock list"

text \<open>
  The entry point up to its first \<open>return false\<close> (lines 110-118); the second argument
  is the loop info, that is the top-level loops in the order they are enumerated.
\<close>

definition runOnMachineFunction ::
  "MachineFunction \<Rightarrow> MachineLoop list \<Rightarrow> PassState \<Rightarrow> bool \<times> PassState" where
  "runOnMachineFunction MF MLI s =
     (False, fold (\<lambda>L. reportLoop L 0) MLI (debug (DbgFunction (getName MF)) s))"

subsection \<open>The statements after the return (lines 120-163)\<close>

text \<open>
  Modelled from the spec: \<open>divideCeil\<close> is declared outside AsmAnalysis.cpp; the spec
  calls it ceiling division.
\<close>

definition divideCeil :: "unsigned \<Rightarrow> unsigned \<Rightarrow> unsigned" where
  "divideCeil Numerator Denominator =
     of_nat ((unat Numerator + unat Denominator - 1) div unat Denominator)"

text \<open>
  The \<open>while (true)\<close> loop (lines 134-149) on the state (Curr, Size, Seen, output).
  The result \<open>None\<close> stands for a loop that never leaves.
\<close>

partial_function (option) chainWalk ::
  "MachineBasicBlock list \<Rightarrow> nat \<Rightarrow> unsigned \<Rightarrow> nat set \<Rightarrow> PassState \<Rightarrow>
   (unsigned \<times> PassState) option" where
  "chainWalk Blocks Curr Size Seen s =
     (if Curr \<in> Seen then Some (Size, s)
      else if successors (Blocks ! Curr) = []
        then Some (Size + of_nat (length (insts (Blocks ! Curr))), debug (DbgBlock Curr) s)
        else chainWalk Blocks (last (successors (Blocks ! Curr)))
               (Size + of_nat (length (insts (Blocks ! Curr)))) (insert Curr Seen)
               (debug (DbgBlock Curr) s))"

text \<open>
  The loop over the blocks of the function (lines 122-153) on the state
  (NumFGs, Sizes, output); the second argument lists the blocks still to visit.
\<close>

fun fetchGroups ::
  "MachineBasicBlock list \<Rightarrow> nat list \<Rightarrow> unsigned \<times> unsigned \<times> PassState \<Rightarrow>
   (unsigned \<times> unsigned \<times> PassState) option" where
  "fetchGroups Blocks [] acc = Some acc"
| "fetchGroups Blocks (MBB # MBBs) (NumFGs, Sizes, s) =
     (if length (predecessors (Blocks ! MBB)) = 1 \<and>
         last (successors (Blocks ! hd (predecessors (Blocks ! MBB)))) = MBB
      then fetchGroups Blocks MBBs (NumFGs, Sizes, s)
      else (case chainWalk Blocks MBB 0 {} (debug DbgStartFG s) of
              None \<Rightarrow> None
            | Some (Size, s1) \<Rightarrow>
                fetchGroups Blocks MBBs
                  (NumFGs + divideCeil Size 16, Sizes + Size, debug (DbgFGSize Size) s1)))"

text \<open>Lines 120-163 as a whole: the loop, the average and the remark.\<close>

definition fetchGroupPass :: "MachineFunction \<Rightarrow> PassState \<Rightarrow> (bool \<times> PassState) option" where
  "fetchGroupPass MF s =
     (case fetchGroups (blocks MF) [0..<length (blocks MF)] (0, 0, s) of
        None \<Rightarrow> None
      | Some (NumFGs, Sizes, s1) \<Rightarrow>
          Some (False, emit (AsmA Sizes NumFGs) (debug (DbgAverage Sizes NumFGs) s1)))"

subsection \<open>Notions used to state the properties of reportLoop\<close>

text \<open>The instructions the header scan does not skip, and the terminators it stops at.\<close>

definition qualifying :: "MachineInstr \<Rightarrow> bool" where
  "qualifying MI = (\<not> (isDebugInstr MI \<or> isPseudoProbe MI))"

definition located :: "MachineInstr \<Rightarrow> bool" where
  "located MI = (getDebugLoc MI \<noteq> None)"

text \<open>The remarks one call of \<open>reportLoop\<close> emits, started on empty output.\<close>

definition emitted :: "MachineLoop \<Rightarrow> unsigned \<Rightarrow> Remark list" where
  "emitted L NestLevel = ORE (reportLoop L NestLevel initState)"

text \<open>
  The values of \<open>AnchorMI\<close> and \<open>numInsts\<close> after the header scan, and of
  \<open>AnchorMI\<close> after the latch scan.
\<close>

definition headerAnchor :: "MachineLoop \<Rightarrow> MachineInstr option" where
  "headerAnchor L = fst (scanHeader (insts (getHeader L)) (None, 0, initState))"

definition headerCount :: "MachineLoop \<Rightarrow> unsigned" where
  "headerCount L = fst (snd (scanHeader (insts (getHeader L)) (None, 0, initState)))"

definition loopAnchor :: "MachineLoop \<Rightarrow> MachineInstr option" where
  "loopAnchor L =
     (case getLoopLatch L of None \<Rightarrow> headerAnchor L
      | Some Latch \<Rightarrow> scanTerminators (terminators Latch) (headerAnchor L))"

text \<open>The remark of the loop itself, and the remarks of the loop and its descendants.\<close>

definition ownRemark :: "MachineLoop \<Rightarrow> Remark list" where
  "ownRemark L =
     (case loopAnchor L of None \<Rightarrow> []
      | Some AnchorMI \<Rightarrow>
          [LoopInfo2 (getDebugLoc AnchorMI) (getHeader L) (getNumBlocks L) (headerCount L)
             (bubbles (headerCount L)) (of_nat (length (subLoops L)))])"

fun loopRemarks :: "MachineLoop \<Rightarrow> Remark list" where
  "loopRemarks (MachineLoop Header SubLoops Latches NumBlocks StartLoc) =
     concat (map loopRemarks SubLoops) @
     ownRemark (MachineLoop Header SubLoops Latches NumBlocks StartLoc)"

text \<open>
  The number of loops nested in a loop at any depth, the number of loops of a subtree
  that end with an anchor, and whether all of them do.
\<close>

fun numDescendants :: "MachineLoop \<Rightarrow> nat" where
  "numDescendants (MachineLoop Header SubLoops Latches NumBlocks StartLoc) =
     sum_list (map (\<lambda>C. 1 + numDescendants C) SubLoops)"

fun numAnchored :: "MachineLoop \<Rightarrow> nat" where
  "numAnchored (MachineLoop Header SubLoops Latches NumBlocks StartLoc) =
     sum_list (map numAnchored SubLoops) +
     (if loopAnchor (MachineLoop Header SubLoops Latches NumBlocks StartLoc) = None then 0 else 1)"

fun allAnchored :: "MachineLoop \<Rightarrow> bool" where
  "allAnchored (MachineLoop Header SubLoops Latches NumBlocks StartLoc) =
     (list_all allAnchored SubLoops \<and>
      loopAnchor (MachineLoop Header SubLoops Latches NumBlocks StartLoc) \<noteq> None)"

text \<open>The debug output of one call of \<open>reportLoop\<close>, and the nesting levels it prints.\<close>

fun loopDebug :: "MachineLoop \<Rightarrow> unsigned \<Rightarrow> DbgEvent list" where
  "loopDebug (MachineLoop Header SubLoops Latches NumBlocks StartLoc) NestLevel =
     DbgLoop StartLoc NestLevel # concat (map (\<lambda>C. loopDebug C (NestLevel + 1)) SubLoops) @
     map DbgInstr (filter qualifying (insts Header))"

fun nestLevels :: "DbgEvent list \<Rightarrow> unsigned list" where
  "nestLevels [] = []"
| "nestLevels (DbgLoop loc n # es) = n # nestLevels es"
| "nestLevels (e # es) = nestLevels es"

text \<open>
  The depths of the loops of a subtree whose root has depth \<open>d\<close>, each loop before
  its sub-loops.
\<close>

fun loopDepths :: "MachineLoop \<Rightarrow> nat \<Rightarrow> nat list" where
  "loopDepths (MachineLoop Header SubLoops Latches NumBlocks StartLoc) d =
     d # concat (map (\<lambda>C. loopDepths C (Suc d)) SubLoops)"

text \<open>The remark built at lines 158-162, after the return of the entry point.\<close>

fun isAsmA :: "Remark \<Rightarrow> bool" where
  "isAsmA (AsmA Sizes NumFGs) = True"
| "isAsmA (LoopInfo2 loc B nb ni bu ns) = False"

text \<open>
  Every successor of every block is a block of the function, and the \<open>size()\<close> of a
  block as an \<open>unsigned\<close>.
\<close>

definition closedCFG :: "MachineBasicBlock list \<Rightarrow> bool" where
  "closedCFG Blocks = list_all (\<lambda>B. list_all (\<lambda>i. i < length Blocks) (successors B)) Blocks"

definition sizeOf :: "MachineBasicBlock list \<Rightarrow> nat \<Rightarrow> unsigned" where
  "sizeOf Blocks i = of_nat (length (insts (Blocks ! i)))"

subsection \<open>Example inputs\<close>

definition plainInst :: "DebugLoc \<Rightarrow> MachineInstr" where
  "plainInst loc = \<lparr>isDebugInstr = False, isPseudoProbe = False, getDebugLoc = loc\<rparr>"

definition debugInst :: MachineInstr where
  "debugInst = \<lparr>isDebugInstr = True, isPseudoProbe = False, getDebugLoc = Some (1, 1)\<rparr>"

definition exBlock :: "MachineInstr list \<Rightarrow> MachineInstr list \<Rightarrow> MachineBasicBlock" where
  "exBlock MIs Ts = \<lparr>insts = MIs @ Ts, terminators = Ts, predecessors = [], successors = []\<rparr>"

text \<open>
  A loop whose header holds a debug instruction and two other instructions, with one
  latch whose terminator has no location.
\<close>

definition exLoopA :: MachineLoop where
  "exLoopA = MachineLoop (exBlock [debugInst, plainInst (Some (7, 3)), plainInst None] []) []
     [exBlock [] [plainInst None]] 2 None"

text \<open>
  A loop with two latches; the first has three terminators, of which the second and the
  third have a location.
\<close>

definition exLoopB :: MachineLoop where
  "exLoopB = MachineLoop (exBlock [plainInst (Some (7, 3))] []) []
     [exBlock [] [plainInst None, plainInst (Some (9, 9)), plainInst (Some (10, 1))],
      exBlock [] [plainInst (Some (11, 1))]] 3 None"

text \<open>A loop whose header holds only a debug instruction, once without a latch and once
  with a single latch whose terminator has a location.\<close>

definition exLoopEmpty :: MachineLoop where
  "exLoopEmpty = MachineLoop (exBlock [debugInst] []) [] [] 1 None"

definition exLoopC :: MachineLoop where
  "exLoopC = MachineLoop (exBlock [debugInst] []) [] [exBlock [] [plainInst (Some (5, 5))]] 3 None"

text \<open>A loop with one sub-loop.\<close>

definition exLoopNest :: MachineLoop where
  "exLoopNest = MachineLoop (exBlock [plainInst (Some (2, 1))] [])
     [MachineLoop (exBlock [plainInst (Some (3, 1)), plainInst (Some (4, 1))] []) [] [] 1 None]
     [] 2 None"

text \<open>Two blocks; the first lists the second and then itself as successors.\<close>

definition exSelfLoop :: "MachineBasicBlock list" where
  "exSelfLoop =
     [\<lparr>insts = [plainInst None, plainInst None], terminators = [], predecessors = [0],
        successors = [1, 0]\<rparr>,
      \<lparr>insts = [plainInst None], terminators = [], predecessors = [0], successors = []\<rparr>]"

text \<open>Four blocks of ten instructions each in one chain.\<close>

definition exChainBlock :: "nat list \<Rightarrow> nat list \<Rightarrow> MachineBasicBlock" where
  "exChainBlock Ps Ss =
     \<lparr>insts = replicate 10 (plainInst None), terminators = [], predecessors = Ps,
      successors = Ss\<rparr>"

definition exChain :: "MachineBasicBlock list" where
  "exChain = [exChainBlock [] [1], exChainBlock [0] [2], exChainBlock [1] [3],
     exChainBlock [2] []]"

section \<open>Properties of reportLoop\<close>

subsection \<open>The scans and the emitted remarks in closed form\<close>

lemma scanHeader_eq:
  "scanHeader MIs (A, k, s) =
     (case A of None \<Rightarrow> find qualifying MIs | Some a \<Rightarrow> Some a,
      k + of_nat (length (filter qualifying MIs)),
      s\<lparr>dbgs := dbgs s @ map DbgInstr (filter qualifying MIs)\<rparr>)"
  by (induction MIs arbitrary: A k s) (auto simp: qualifying_def debug_def split: option.splits)

lemma scanTerminators_eq:
  "scanTerminators MIs A = (case find located MIs of None \<Rightarrow> A | Some T \<Rightarrow> Some T)"
  by (induction MIs) (auto simp: located_def)

lemma report_ORE:
  "ORE (reportLoop L n s) = ORE s @ loopRemarks L"
  "fst (reportSubLoops Ls n acc) = fst acc + of_nat (length Ls) \<and>
   ORE (snd (reportSubLoops Ls n acc)) = ORE (snd acc) @ concat (map loopRemarks Ls)"
proof (induction L n s and Ls n acc rule: reportLoop_reportSubLoops.induct)
  case (1 Header SubLoops Latches NumBlocks StartLoc NestLevel s)
  obtain k s1 where r:
    "reportSubLoops SubLoops NestLevel (0, debug (DbgLoop StartLoc NestLevel) s) = (k, s1)"
    by (cases "reportSubLoops SubLoops NestLevel (0, debug (DbgLoop StartLoc NestLevel) s)")
  from "1.IH" r have k: "k = of_nat (length SubLoops)"
    and s1: "ORE s1 = ORE s @ concat (map loopRemarks SubLoops)"
    by (auto simp: debug_def)
  show ?case
    by (simp add: r scanHeader_eq ownRemark_def loopAnchor_def headerAnchor_def headerCount_def
          k s1 emit_def split: option.splits)
next
  case (2 NestLevel acc)
  show ?case by simp
next
  case (3 SubL SubLs NestLevel numSubLoops s)
  then show ?case by (simp add: add.assoc)
qed

lemma emitted_eq: "emitted L n = loopRemarks L"
  by (simp add: emitted_def report_ORE initState_def)

lemma loopRemarks_shape:
  "r \<in> set (loopRemarks L) \<Longrightarrow> \<exists>loc B nb ni ns. r = LoopInfo2 loc B nb ni (bubbles ni) ns"
  by (induction L rule: loopRemarks.induct) (auto simp: ownRemark_def split: option.splits)

lemma unat_bubbles:
  "unat (bubbles k) = (if unat k mod 10 = 0 then 0 else 10 - unat k mod 10)"
proof -
  have m: "unat (k mod 10) = unat k mod 10" by (simp add: unat_mod)
  have le: "k mod 10 \<le> 10" by (simp add: word_le_nat_alt m less_imp_le)
  have z: "(k mod 10 = 0) = (unat k mod 10 = 0)"
    by (metis m unat_eq_0)
  show ?thesis
    using le by (simp add: bubbles_def MW_def z unat_sub m)
qed

lemma exLoopA_emitted:
  "emitted exLoopA 0 = [LoopInfo2 (Some (7, 3)) (getHeader exLoopA) 2 2 8 0]"
  by (simp add: emitted_def exLoopA_def initState_def debug_def emit_def bubbles_def MW_def
       exBlock_def plainInst_def debugInst_def)

subsection \<open>The bubbles value\<close>

text \<open>
  C1: in every remark that \<open>reportLoop\<close> emits, for the loop or any of its
  descendants, the Bubbles value is 0 when the NumInsts value is a multiple of 10 and is
  10 minus NumInsts mod 10 otherwise; it is below 10, and it is 0 only for a multiple
  of 10, so that otherwise it lies strictly between 0 and 10.
\<close>

theorem C1_bubbles:
  "r \<in> set (emitted L NestLevel) \<Longrightarrow>
     unat (rBubbles r) =
       (if unat (rNumInsts r) mod 10 = 0 then 0 else 10 - unat (rNumInsts r) mod 10) \<and>
     unat (rBubbles r) < 10 \<and>
     ((rBubbles r = 0) = (unat (rNumInsts r) mod 10 = 0))"
proof -
  assume "r \<in> set (emitted L NestLevel)"
  then have "r \<in> set (loopRemarks L)" by (simp add: emitted_eq)
  from loopRemarks_shape [OF this]
  obtain loc B nb ni ns where r: "r = LoopInfo2 loc B nb ni (bubbles ni) ns" by blast
  have lt: "unat ni mod 10 < 10" by simp
  have "unat (bubbles ni) < 10" unfolding unat_bubbles using lt by (simp del: mod_less_divisor)
  moreover have "(bubbles ni = 0) = (unat ni mod 10 = 0)"
    unfolding unat_eq_0 [symmetric] unat_bubbles using lt by (simp del: mod_less_divisor)
  ultimately show ?thesis by (simp add: r unat_bubbles)
qed

theorem C1_bubbles_witness:
  "LoopInfo2 (Some (7, 3)) (getHeader exLoopA) 2 2 8 0 \<in> set (emitted exLoopA 0) \<and>
   unat (rBubbles (LoopInfo2 (Some (7, 3)) (getHeader exLoopA) 2 2 8 0)) = 10 - 2 mod 10"
  using C1_bubbles [of "LoopInfo2 (Some (7, 3)) (getHeader exLoopA) 2 2 8 0" exLoopA 0]
  by (simp add: exLoopA_emitted)

lemma children_emitted:
  "concat (map (\<lambda>C. emitted C n) Ls) = concat (map loopRemarks Ls)"
  by (simp add: emitted_eq)

lemma headerCount_eq:
  "headerCount L = of_nat (length (filter qualifying (insts (getHeader L))))"
  by (simp add: headerCount_def scanHeader_eq)

subsection \<open>The anchor\<close>

text \<open>
  C2: when the loop has one or more latch blocks, the terminators of the first latch are
  scanned in order, and the first of them that has a source location is the anchor of the
  remark, whatever the header holds; when none has a location the anchor stays the one
  found in the header, and without it no remark is emitted for the loop.
\<close>

theorem C2_latch_anchor:
  "latches L = Latch # Latches \<Longrightarrow>
   emitted L NestLevel =
     concat (map (\<lambda>C. emitted C (NestLevel + 1)) (subLoops L)) @
     (case find located (terminators Latch) of
        Some T \<Rightarrow>
          [LoopInfo2 (getDebugLoc T) (getHeader L) (getNumBlocks L) (headerCount L)
             (bubbles (headerCount L)) (of_nat (length (subLoops L)))]
      | None \<Rightarrow>
          (case headerAnchor L of
             None \<Rightarrow> []
           | Some A \<Rightarrow>
               [LoopInfo2 (getDebugLoc A) (getHeader L) (getNumBlocks L) (headerCount L)
                  (bubbles (headerCount L)) (of_nat (length (subLoops L)))]))"
  by (cases L)
     (simp add: emitted_eq ownRemark_def loopAnchor_def scanTerminators_eq
        split: option.splits)

theorem C2_latch_anchor_witness:
  "latches exLoopB =
     [exBlock [] [plainInst None, plainInst (Some (9, 9)), plainInst (Some (10, 1))],
      exBlock [] [plainInst (Some (11, 1))]] \<and>
   emitted exLoopB 0 = [LoopInfo2 (Some (9, 9)) (getHeader exLoopB) 3 1 9 0]"
  using C2_latch_anchor [of exLoopB
    "exBlock [] [plainInst None, plainInst (Some (9, 9)), plainInst (Some (10, 1))]"
    "[exBlock [] [plainInst (Some (11, 1))]]" 0]
  by (simp add: exLoopB_def exBlock_def plainInst_def located_def headerCount_eq qualifying_def
       bubbles_def MW_def)

text \<open>
  C10: a loop whose header holds no instruction other than debug instructions and
  pseudo probes, and whose only latch has a terminator with a source location, gets a
  remark; its NumInsts and Bubbles values are 0, its NumBlocks value is the loop's block
  count, and its location is that of the first such terminator.
\<close>

theorem C10_empty_header:
  "latches L = [Latch] \<Longrightarrow> filter qualifying (insts (getHeader L)) = [] \<Longrightarrow>
   find located (terminators Latch) = Some T \<Longrightarrow>
   emitted L NestLevel =
     concat (map (\<lambda>C. emitted C (NestLevel + 1)) (subLoops L)) @
     [LoopInfo2 (getDebugLoc T) (getHeader L) (getNumBlocks L) 0 0 (of_nat (length (subLoops L)))]"
  by (cases L)
     (simp add: emitted_eq ownRemark_def loopAnchor_def scanTerminators_eq headerCount_eq
        bubbles_def)

theorem C10_empty_header_witness:
  "latches exLoopC = [exBlock [] [plainInst (Some (5, 5))]] \<and>
   filter qualifying (insts (getHeader exLoopC)) = [] \<and>
   find located (terminators (exBlock [] [plainInst (Some (5, 5))])) =
     Some (plainInst (Some (5, 5))) \<and>
   emitted exLoopC 0 = [LoopInfo2 (Some (5, 5)) (getHeader exLoopC) 3 0 0 0]"
  using C10_empty_header [of exLoopC "exBlock [] [plainInst (Some (5, 5))]"
    "plainInst (Some (5, 5))" 0]
  by (simp add: exLoopC_def exBlock_def plainInst_def debugInst_def located_def qualifying_def)

subsection \<open>The header scan\<close>

text \<open>
  C8: the NumInsts value of a loop's remark is the number of header instructions that
  are neither debug instructions nor pseudo probes, and the anchor found in the header
  is the first such instruction: debug instructions and pseudo probes are not counted
  and are never the header's anchor.
\<close>

theorem C8_header_scan:
  "emitted L NestLevel =
     concat (map (\<lambda>C. emitted C (NestLevel + 1)) (subLoops L)) @
     (case loopAnchor L of
        None \<Rightarrow> []
      | Some A \<Rightarrow>
          [LoopInfo2 (getDebugLoc A) (getHeader L) (getNumBlocks L)
             (of_nat (length (filter qualifying (insts (getHeader L)))))
             (bubbles (of_nat (length (filter qualifying (insts (getHeader L))))))
             (of_nat (length (subLoops L)))]) \<and>
   fst (scanHeader (insts (getHeader L)) (None, 0, s)) = find qualifying (insts (getHeader L)) \<and>
   fst (snd (scanHeader (insts (getHeader L)) (None, 0, s))) =
     of_nat (length (filter qualifying (insts (getHeader L))))"
  by (cases L)
     (simp add: emitted_eq ownRemark_def headerCount_eq scanHeader_eq split: option.splits)

subsection \<open>The number and the order of the remarks\<close>

lemma length_loopRemarks: "length (loopRemarks L) = numAnchored L"
  by (induction L rule: loopRemarks.induct)
     (simp add: ownRemark_def length_concat comp_def cong: map_cong split: option.splits)

lemma numAnchored_le: "numAnchored L \<le> 1 + numDescendants L"
proof (induction L rule: numAnchored.induct)
  case (1 Header SubLoops Latches NumBlocks StartLoc)
  have "sum_list (map numAnchored SubLoops) \<le> sum_list (map (\<lambda>C. 1 + numDescendants C) SubLoops)"
    using 1 by (intro sum_list_mono) simp
  then show ?case by simp
qed

lemma allAnchored_count: "allAnchored L \<Longrightarrow> numAnchored L = 1 + numDescendants L"
proof (induction L rule: numAnchored.induct)
  case (1 Header SubLoops Latches NumBlocks StartLoc)
  have "map numAnchored SubLoops = map (\<lambda>C. 1 + numDescendants C) SubLoops"
    using 1 by (intro map_cong) (auto simp: list_all_iff)
  then have "sum_list (map numAnchored SubLoops) =
      sum_list (map (\<lambda>C. 1 + numDescendants C) SubLoops)"
    by (rule arg_cong)
  then show ?case using "1.prems" by auto
qed

lemma exLoopNest_anchored: "allAnchored exLoopNest"
  by (simp add: exLoopNest_def loopAnchor_def headerAnchor_def exBlock_def plainInst_def)

text \<open>
  C3, amended: a call of \<open>reportLoop\<close> emits one remark for each loop of
  the subtree that ends with an anchor, so at most 1 plus the number of nested loops,
  and exactly that many when every loop of the subtree has an anchor.
\<close>

theorem C3_record_count:
  "length (emitted L NestLevel) = numAnchored L \<and>
   numAnchored L \<le> 1 + numDescendants L \<and>
   (allAnchored L \<longrightarrow> length (emitted L NestLevel) = 1 + numDescendants L)"
  using numAnchored_le [of L] allAnchored_count [of L]
  by (simp add: emitted_eq length_loopRemarks)

theorem C3_record_count_witness:
  "allAnchored exLoopNest \<and> length (emitted exLoopNest 0) = 2"
  using C3_record_count [of exLoopNest 0] exLoopNest_anchored
  by (simp add: exLoopNest_def)

text \<open>
  C3, counterexample: for a loop without sub-loops whose header holds only a debug
  instruction and which has no latch, nothing is emitted, although 1 plus the number of
  nested loops is 1.
\<close>

theorem C3_counterexample:
  "length (emitted exLoopEmpty 0) \<noteq> 1 + numDescendants exLoopEmpty"
  by (simp add: emitted_def exLoopEmpty_def initState_def debug_def emit_def
       exBlock_def debugInst_def)

text \<open>
  C6: the remarks of a call are the remarks of the calls on the sub-loops, in their
  order, followed by the loop's own remark if it has one; so every remark of a
  descendant comes before the loop's own.
\<close>

theorem C6_children_first:
  "\<exists>own. emitted L NestLevel =
       concat (map (\<lambda>C. emitted C (NestLevel + 1)) (subLoops L)) @ own \<and>
     (own = [] \<or>
      (\<exists>loc. own =
         [LoopInfo2 loc (getHeader L) (getNumBlocks L) (headerCount L)
            (bubbles (headerCount L)) (of_nat (length (subLoops L)))]))"
  by (rule exI [of _ "ownRemark L"], cases L)
     (simp add: emitted_eq ownRemark_def split: option.splits)

subsection \<open>The nesting level\<close>

lemma report_dbgs:
  "dbgs (reportLoop L n s) = dbgs s @ loopDebug L n"
  "dbgs (snd (reportSubLoops Ls n acc)) =
     dbgs (snd acc) @ concat (map (\<lambda>C. loopDebug C (n + 1)) Ls)"
proof (induction L n s and Ls n acc rule: reportLoop_reportSubLoops.induct)
  case (1 Header SubLoops Latches NumBlocks StartLoc NestLevel s)
  obtain k s1 where r:
    "reportSubLoops SubLoops NestLevel (0, debug (DbgLoop StartLoc NestLevel) s) = (k, s1)"
    by (cases "reportSubLoops SubLoops NestLevel (0, debug (DbgLoop StartLoc NestLevel) s)")
  from "1.IH" r have s1:
    "dbgs s1 = dbgs s @ DbgLoop StartLoc NestLevel #
       concat (map (\<lambda>C. loopDebug C (NestLevel + 1)) SubLoops)"
    by (auto simp: debug_def)
  show ?case
    by (simp add: r scanHeader_eq s1 emit_def split: option.splits)
next
  case (2 NestLevel acc)
  show ?case by simp
next
  case (3 SubL SubLs NestLevel numSubLoops s)
  then show ?case by simp
qed

lemma nestLevels_append: "nestLevels (xs @ ys) = nestLevels xs @ nestLevels ys"
  by (induction xs rule: nestLevels.induct) simp_all

lemma nestLevels_concat: "nestLevels (concat xss) = concat (map nestLevels xss)"
  by (induction xss) (simp_all add: nestLevels_append)

lemma nestLevels_instrs: "nestLevels (map DbgInstr xs) = []"
  by (induction xs) simp_all

lemma nestLevels_loopDebug:
  "nestLevels (loopDebug L (n + of_nat d)) = map (\<lambda>e. n + of_nat e) (loopDepths L d)"
proof (induction L d arbitrary: rule: loopDepths.induct)
  case (1 Header SubLoops Latches NumBlocks StartLoc d)
  have eq: "map (\<lambda>C. nestLevels (loopDebug C (n + of_nat d + 1))) SubLoops =
        map (\<lambda>C. map (\<lambda>e. n + of_nat e) (loopDepths C (Suc d))) SubLoops"
    using 1 by (intro map_cong) (simp_all add: add_ac)
  show ?case
    by (simp add: eq nestLevels_append nestLevels_concat nestLevels_instrs comp_def map_concat)
qed

text \<open>
  C4, amended: the nesting level is passed down the calls and printed to the
  debug output, where it is the depth of the loop (0 for the root, one more for each
  sub-loop, as a 32-bit unsigned); the remarks do not carry it, and the remarks of a
  call are the same for every nesting level.
\<close>

theorem C4_nest_level:
  "nestLevels (dbgs (reportLoop L 0 initState)) = map of_nat (loopDepths L 0) \<and>
   ORE (reportLoop L NestLevel s) = ORE (reportLoop L 0 s)"
  using nestLevels_loopDebug [of L 0 0]
  by (simp add: report_dbgs report_ORE initState_def)

text \<open>
  C4, counterexample: the same loop reported at level 0 and at level 1 gives the same
  remark, which therefore holds no nesting level.
\<close>

theorem C4_counterexample:
  "emitted exLoopA 0 = emitted exLoopA 1 \<and> emitted exLoopA 0 \<noteq> []"
  by (simp add: emitted_def exLoopA_def initState_def debug_def emit_def bubbles_def MW_def
       exBlock_def plainInst_def debugInst_def)

section \<open>Properties of runOnMachineFunction\<close>

lemma fold_report_ORE:
  "ORE (fold (\<lambda>L. reportLoop L n) Ls s) = ORE s @ concat (map loopRemarks Ls)"
  by (induction Ls arbitrary: s) (simp_all add: report_ORE)

lemma loopRemarks_no_AsmA: "filter isAsmA (loopRemarks L) = []"
proof -
  have "\<not> isAsmA r" if "r \<in> set (loopRemarks L)" for r
    using loopRemarks_shape [OF that] by auto
  then show ?thesis by (simp add: filter_empty_conv)
qed

lemma concat_no_AsmA: "filter isAsmA (concat (map loopRemarks Ls)) = []"
  by (induction Ls) (simp_all add: loopRemarks_no_AsmA)

text \<open>
  C5: the entry point returns false after reporting the top-level loops in order; what
  it emits are the remarks of these calls and nothing else, so no remark with the
  average fetch-group size is ever emitted.
\<close>

theorem C5_no_average_remark:
  "\<not> fst (runOnMachineFunction MF MLI s) \<and>
   ORE (snd (runOnMachineFunction MF MLI s)) = ORE s @ concat (map (\<lambda>L. emitted L 0) MLI) \<and>
   filter isAsmA (ORE (snd (runOnMachineFunction MF MLI s))) = filter isAsmA (ORE s)"
  by (simp add: runOnMachineFunction_def fold_report_ORE debug_def children_emitted
       concat_no_AsmA)

section \<open>Properties of the fetch-group walk\<close>

lemma closedCFG_last:
  "closedCFG Blocks \<Longrightarrow> Curr < length Blocks \<Longrightarrow> successors (Blocks ! Curr) \<noteq> [] \<Longrightarrow>
   last (successors (Blocks ! Curr)) < length Blocks"
  by (metis closedCFG_def last_in_set list_all_iff nth_mem)

lemma chainWalk_terminates:
  "closedCFG Blocks \<Longrightarrow> Curr < length Blocks \<Longrightarrow>
   \<exists>vis. chainWalk Blocks Curr Size Seen s =
            Some (Size + sum_list (map (sizeOf Blocks) vis),
                  s\<lparr>dbgs := dbgs s @ map DbgBlock vis\<rparr>) \<and>
         distinct vis \<and> set vis \<inter> Seen = {} \<and> set vis \<subseteq> {..<length Blocks}"
proof (induction "card ({..<length Blocks} - Seen)" arbitrary: Curr Size Seen s rule: less_induct)
  case less
  show ?case
  proof (cases "Curr \<in> Seen")
    case True
    then have "chainWalk Blocks Curr Size Seen s = Some (Size, s)"
      by (subst chainWalk.simps) simp
    then show ?thesis by (intro exI [of _ "[]"]) simp
  next
    case notSeen: False
    show ?thesis
    proof (cases "successors (Blocks ! Curr) = []")
      case True
      with notSeen have "chainWalk Blocks Curr Size Seen s =
          Some (Size + sizeOf Blocks Curr, debug (DbgBlock Curr) s)"
        by (subst chainWalk.simps) (simp add: sizeOf_def)
      then show ?thesis using notSeen less.prems
        by (intro exI [of _ "[Curr]"]) (simp add: debug_def)
    next
      case False
      let ?next = "last (successors (Blocks ! Curr))"
      have nx: "?next < length Blocks" using closedCFG_last less.prems False by blast
      have "{..<length Blocks} - insert Curr Seen \<subset> {..<length Blocks} - Seen"
        using notSeen less.prems by auto
      then have "card ({..<length Blocks} - insert Curr Seen) < card ({..<length Blocks} - Seen)"
        by (intro psubset_card_mono) simp_all
      from less.hyps [OF this less.prems(1) nx, of "Size + sizeOf Blocks Curr"
          "debug (DbgBlock Curr) s"]
      obtain vis where w: "chainWalk Blocks ?next (Size + sizeOf Blocks Curr) (insert Curr Seen)
            (debug (DbgBlock Curr) s) =
          Some (Size + sizeOf Blocks Curr + sum_list (map (sizeOf Blocks) vis),
                debug (DbgBlock Curr) s
                  \<lparr>dbgs := dbgs (debug (DbgBlock Curr) s) @ map DbgBlock vis\<rparr>)"
        and d: "distinct vis" "set vis \<inter> insert Curr Seen = {}" "set vis \<subseteq> {..<length Blocks}"
        by blast
      have "chainWalk Blocks Curr Size Seen s =
          Some (Size + sum_list (map (sizeOf Blocks) (Curr # vis)),
                s\<lparr>dbgs := dbgs s @ map DbgBlock (Curr # vis)\<rparr>)"
        using notSeen False w by (subst chainWalk.simps) (simp add: sizeOf_def debug_def add.assoc)
      then show ?thesis using d less.prems notSeen
        by (intro exI [of _ "Curr # vis"]) auto
    qed
  qed
qed

lemma chainWalk_self:
  "successors (Blocks ! Curr) \<noteq> [] \<Longrightarrow> last (successors (Blocks ! Curr)) = Curr \<Longrightarrow>
   chainWalk Blocks Curr 0 {} s = Some (sizeOf Blocks Curr, debug (DbgBlock Curr) s)"
  by (subst chainWalk.simps, simp, subst chainWalk.simps, simp add: sizeOf_def)

text \<open>
  C7: on a control-flow graph whose successors are blocks of the function, the chain walk
  started at any block with an empty visited set returns; the blocks it visits are
  pairwise distinct, and the size it returns is the sum of their sizes. When the
  last-listed successor of the start block is the block itself, the walk returns after
  counting that block once.
\<close>

theorem C7_walk_terminates:
  "closedCFG Blocks \<Longrightarrow> Curr < length Blocks \<Longrightarrow>
   (\<exists>vis. chainWalk Blocks Curr 0 {} s =
            Some (sum_list (map (sizeOf Blocks) vis), s\<lparr>dbgs := dbgs s @ map DbgBlock vis\<rparr>) \<and>
          distinct vis) \<and>
   (successors (Blocks ! Curr) \<noteq> [] \<and> last (successors (Blocks ! Curr)) = Curr \<longrightarrow>
    chainWalk Blocks Curr 0 {} s = Some (sizeOf Blocks Curr, debug (DbgBlock Curr) s))"
  using chainWalk_terminates [of Blocks Curr 0 "{}" s] chainWalk_self [of Blocks Curr s]
  by auto

theorem C7_walk_terminates_witness:
  "closedCFG exSelfLoop \<and> 0 < length exSelfLoop \<and> successors (exSelfLoop ! 0) \<noteq> [] \<and>
   last (successors (exSelfLoop ! 0)) = 0 \<and>
   chainWalk exSelfLoop 0 0 {} initState = Some (2, debug (DbgBlock 0) initState)"
  using C7_walk_terminates [of exSelfLoop 0 initState]
  by (simp add: exSelfLoop_def closedCFG_def sizeOf_def)

section \<open>Properties of the fetch-group loop\<close>

lemma divideCeil_40: "divideCeil 40 16 = 3"
  by (simp add: divideCeil_def)

text \<open>
  C9: for a function of four blocks in one chain (the entry has no predecessor, each
  later block has the block before it as its only predecessor and is that block's
  last-listed successor, the last block has no successor) with 40 instructions in all,
  the loop starts one fetch group, at the entry; its size is 40, and the loop ends with
  NumFGs = 3 and Sizes = 40.
\<close>

theorem C9_chain_of_four:
  assumes B: "Blocks = [B0, B1, B2, B3]"
    and P: "predecessors B0 = []" "predecessors B1 = [0]" "predecessors B2 = [1]"
      "predecessors B3 = [2]"
    and S: "successors B0 \<noteq> []" "last (successors B0) = 1"
      "successors B1 \<noteq> []" "last (successors B1) = 2"
      "successors B2 \<noteq> []" "last (successors B2) = 3" "successors B3 = []"
    and N: "length (insts B0) + length (insts B1) + length (insts B2) + length (insts B3) = 40"
  shows "fetchGroups Blocks [0..<length Blocks] (0, 0, s) =
     Some (3, 40, s\<lparr>dbgs := dbgs s @
       [DbgStartFG, DbgBlock 0, DbgBlock 1, DbgBlock 2, DbgBlock 3, DbgFGSize 40]\<rparr>)"
proof -
  have sz: "(of_nat (length (insts B0)) :: unsigned) + of_nat (length (insts B1)) +
      of_nat (length (insts B2)) + of_nat (length (insts B3)) = 40"
    using arg_cong [OF N, of "of_nat :: nat \<Rightarrow> unsigned"] by simp
  have w: "chainWalk Blocks 0 0 {} (debug DbgStartFG s) =
      Some (40, s\<lparr>dbgs := dbgs s @
        [DbgStartFG, DbgBlock 0, DbgBlock 1, DbgBlock 2, DbgBlock 3]\<rparr>)"
    apply (subst chainWalk.simps, simp add: B S)
    apply (subst chainWalk.simps, simp add: B S)
    apply (subst chainWalk.simps, simp add: B S)
    apply (subst chainWalk.simps, simp add: B S debug_def sz add.assoc [symmetric])
    done
  have w': "chainWalk [B0, B1, B2, B3] 0 0 {} (s\<lparr>dbgs := dbgs s @ [DbgStartFG]\<rparr>) =
      Some (40, s\<lparr>dbgs := dbgs s @
        [DbgStartFG, DbgBlock 0, DbgBlock 1, DbgBlock 2, DbgBlock 3]\<rparr>)"
    using w by (simp add: B debug_def)
  show ?thesis
    by (simp add: w' B P S divideCeil_40 debug_def)
qed

theorem C9_chain_of_four_witness:
  "fetchGroups exChain [0..<length exChain] (0, 0, initState) =
     Some (3, 40, initState\<lparr>dbgs := dbgs initState @
       [DbgStartFG, DbgBlock 0, DbgBlock 1, DbgBlock 2, DbgBlock 3, DbgFGSize 40]\<rparr>)"
  using C9_chain_of_four [of exChain "exChainBlock [] [1]" "exChainBlock [0] [2]"
    "exChainBlock [1] [3]" "exChainBlock [2] []" initState]
  by (simp add: exChain_def exChainBlock_def)

end
